theory Spec2Isabelle
  imports Main "HOL-Library.Sublist"
begin

section \<open>The name sanitizer\<close>

text \<open>
  Both programs of \<^verbatim>\<open>zipper.go\<close> compile the same pattern,
  \<^verbatim>\<open>[#<>:"/\|?*\\]\<close>: a single character class. The first keeps it in the field
  \<^verbatim>\<open>srv.safeFileName\<close> (line 65), the second in the package variable
  \<^verbatim>\<open>makeSafeFileName\<close> (line 324). The class holds the ten characters
  \<^verbatim>\<open># < > : " / | ? * \<close> and the backslash. All of them are ASCII, and no byte of a
  multi-byte UTF-8 sequence is ASCII, so matching the class byte by byte is what the
  rune-wise matcher does; a string is a list of bytes here, as in Go.
\<close>

definition makeSafeFileName :: "char list" where
  "makeSafeFileName =
     [CHR ''#'', CHR ''<'', CHR ''>'', CHR '':'', CHR 0x22, CHR ''/'', CHR ''|'', CHR ''?'',
      CHR ''*'', CHR 0x5C]"

text \<open>
  \<^verbatim>\<open>re.ReplaceAllString(src, repl)\<close> for a pattern that is one character class: every
  match is one character, matches are found left to right, each is replaced by
  \<^verbatim>\<open>repl\<close> and the text between matches is copied unchanged.
\<close>

fun ReplaceAllString :: "char list \<Rightarrow> string \<Rightarrow> string \<Rightarrow> string" where
  "ReplaceAllString re [] repl = []"
| "ReplaceAllString re (c # src) repl =
     (if c \<in> set re then repl @ ReplaceAllString re src repl
      else c # ReplaceAllString re src repl)"

section \<open>Data\<close>

text \<open>\<^verbatim>\<open>type redisFile struct\<close> (lines 37-41; \<^verbatim>\<open>RedisFile\<close>, lines 270-274).\<close>

record redisFile =
  S3Path :: string
  FileName :: string
  Folder :: string

text \<open>
  What \<^verbatim>\<open>conn.Do("GET", key)\<close> hands back beside its error: the reply is an
  \<^verbatim>\<open>interface{}\<close> that is nil, a byte slice, or a value of another type.
\<close>

datatype reply = ReplyNil | ReplyBytes string | ReplyOther

text \<open>
  The error of \<^verbatim>\<open>bucket.GetReader\<close> as the type switch of lines 165-172 sees it:
  an \<^verbatim>\<open>*s3.Error\<close> with its status code, or any other error.
\<close>

datatype fetch_error = S3Error nat | OtherError

datatype compression = Store | Deflate

datatype logline =
    MissingPath redisFile
  | FileNotFound string
  | ErrorDownloading string
  | RequestLine

text \<open>
  The handlers act only through calls on their collaborators: the response writer, the
  Redis connection, the S3 bucket and the zip writer. A run is the list of these calls, in
  order. \<^verbatim>\<open>CreateHeader\<close> records whether a writer came back (the error is dropped at
  lines 192 and 442, so a failed call leaves \<^verbatim>\<open>f\<close> nil); \<^verbatim>\<open>Copy\<close> and
  \<^verbatim>\<open>ZipClose\<close> record whether the call succeeded, which the handlers never read.
\<close>

datatype event =
    WriteHeader nat
  | HttpError string nat
  | HeaderAdd string string
  | PoolGet
  | ConnDo string
  | ConnClose
  | NewWriter
  | GetReader string
  | CreateHeader string compression bool
  | Copy string bool
  | ReaderClose
  | ZipClose bool
  | Log logline

datatype outcome = Returned | Panicked

text \<open>
  The collaborators are not in the source file; their answers are parameters of the model.
  \<^verbatim>\<open>json_Unmarshal\<close> decodes into \<^verbatim>\<open>[]redisFile\<close> (line 222),
  \<^verbatim>\<open>json_Unmarshal_ptr\<close> into \<^verbatim>\<open>[]*RedisFile\<close> (line 350), where an element may be
  a nil pointer. \<^verbatim>\<open>zw_CreateHeader n\<close> tells whether the \<open>n\<close>-th call of
  \<^verbatim>\<open>CreateHeader\<close> on the request's zip writer returns a writer, \<^verbatim>\<open>io_Copy n\<close>
  whether the copy into that writer ends without error, \<^verbatim>\<open>zw_Close\<close> whether
  \<^verbatim>\<open>Close\<close> writes the central directory.
\<close>

record env =
  conn_Do :: "string \<Rightarrow> string + reply"
  json_Unmarshal :: "string \<Rightarrow> string + redisFile list"
  json_Unmarshal_ptr :: "string \<Rightarrow> string + redisFile option list"
  bucket_GetReader :: "string \<Rightarrow> fetch_error + string"
  zw_CreateHeader :: "nat \<Rightarrow> bool"
  io_Copy :: "nat \<Rightarrow> bool"
  zw_Close :: bool

text \<open>
  \<^verbatim>\<open>r.URL.Query()\<close> is a \<^verbatim>\<open>url.Values\<close>, a map from a key to its values. It is an
  association list here; \<^verbatim>\<open>v, ok := qry[k]\<close> gives the nil slice and false for a key
  that is not there.
\<close>

type_synonym Values = "(string \<times> string list) list"

definition Values_get :: "Values \<Rightarrow> string \<Rightarrow> string list \<times> bool" where
  "Values_get qry k = (case map_of qry k of None \<Rightarrow> ([], False) | Some v \<Rightarrow> (v, True))"

section \<open>The loop over the manifest\<close>

text \<open>Lines 157-161 and 404-408: the entry's file name.\<close>

definition safeFileName :: "redisFile \<Rightarrow> string" where
  "safeFileName file =
     (let safeFileName = ReplaceAllString makeSafeFileName (FileName file) '''' in
      if safeFileName = '''' then ''file'' else safeFileName)"

text \<open>\<^verbatim>\<open>strings.HasSuffix(s, "/")\<close>.\<close>

definition HasSuffix_slash :: "string \<Rightarrow> bool" where
  "HasSuffix_slash s = (s \<noteq> [] \<and> last s = CHR ''/'')"

text \<open>Lines 176-185 and 425-435: the path of the entry inside the archive.\<close>

definition zipPath :: "redisFile \<Rightarrow> string" where
  "zipPath file =
     (let zipPath = '''';
          zipPath =
            (if Folder file \<noteq> '''' then
               (let zipPath = zipPath @ Folder file in
                if \<not> HasSuffix_slash zipPath then zipPath @ ''/'' else zipPath)
             else zipPath)
      in zipPath @ safeFileName file)"

text \<open>
  One iteration of the loop (lines 152-195 and 398-445). The result is the calls made and
  the number of \<^verbatim>\<open>CreateHeader\<close> calls so far, or \<open>None\<close> when the iteration
  panics. When \<^verbatim>\<open>CreateHeader\<close> fails, \<^verbatim>\<open>f\<close> is a nil \<^verbatim>\<open>io.Writer\<close>;
  \<^verbatim>\<open>io.Copy(f, rdr)\<close> then calls \<^verbatim>\<open>Write\<close> on the nil interface as soon as the
  reader yields a byte, which is a run-time panic, and returns without a write when the
  object is empty.
\<close>

definition loop_body :: "env \<Rightarrow> nat \<Rightarrow> redisFile \<Rightarrow> event list \<times> nat option" where
  "loop_body env n file =
     (if S3Path file = '''' then ([Log (MissingPath file)], Some n)
      else
        (case bucket_GetReader env (S3Path file) of
           Inl err \<Rightarrow>
             (GetReader (S3Path file) #
                (case err of
                   S3Error code \<Rightarrow> if code = 404 then [Log (FileNotFound (S3Path file))] else []
                 | OtherError \<Rightarrow> [Log (ErrorDownloading (S3Path file))]),
              Some n)
         | Inr rdr \<Rightarrow>
             (if zw_CreateHeader env n then
                ([GetReader (S3Path file), CreateHeader (zipPath file) Deflate True,
                  Copy rdr (io_Copy env n), ReaderClose], Some (Suc n))
              else if rdr = '''' then
                ([GetReader (S3Path file), CreateHeader (zipPath file) Deflate False,
                  Copy rdr True, ReaderClose], Some (Suc n))
              else
                ([GetReader (S3Path file), CreateHeader (zipPath file) Deflate False], None))))"

text \<open>\<^verbatim>\<open>for _, file := range files\<close> over \<^verbatim>\<open>[]redisFile\<close> (line 151).\<close>

fun range_files :: "env \<Rightarrow> nat \<Rightarrow> redisFile list \<Rightarrow> event list \<times> outcome" where
  "range_files env n [] = ([], Returned)"
| "range_files env n (file # files) =
     (case loop_body env n file of
        (ev, None) \<Rightarrow> (ev, Panicked)
      | (ev, Some n') \<Rightarrow>
          (case range_files env n' files of (evs, out) \<Rightarrow> (ev @ evs, out)))"

text \<open>
  The same loop over \<^verbatim>\<open>[]*RedisFile\<close> (line 397): reading \<^verbatim>\<open>file.S3Path\<close> through
  a nil pointer panics.
\<close>

fun range_files_ptr :: "env \<Rightarrow> nat \<Rightarrow> redisFile option list \<Rightarrow> event list \<times> outcome" where
  "range_files_ptr env n [] = ([], Returned)"
| "range_files_ptr env n (None # files) = ([], Panicked)"
| "range_files_ptr env n (Some file # files) =
     (case loop_body env n file of
        (ev, None) \<Rightarrow> (ev, Panicked)
      | (ev, Some n') \<Rightarrow>
          (case range_files_ptr env n' files of (evs, out) \<Rightarrow> (ev @ evs, out)))"

section \<open>Resolving the token\<close>

text \<open>\<^verbatim>\<open>getRedisFiles\<close> (lines 201-226): the calls on the pool, and the files or the error.\<close>

definition getRedisFiles :: "env \<Rightarrow> string \<Rightarrow> event list \<times> (string + redisFile list)" where
  "getRedisFiles env tkn =
     ([PoolGet, ConnDo (''zip:'' @ tkn), ConnClose],
      (case conn_Do env (''zip:'' @ tkn) of
         Inl err \<Rightarrow> Inl err
       | Inr ReplyNil \<Rightarrow> Inl ''No files found''
       | Inr ReplyOther \<Rightarrow> Inl ''Assertion failed''
       | Inr (ReplyBytes b) \<Rightarrow>
           (case json_Unmarshal env b of
              Inl err \<Rightarrow> Inl err
            | Inr files \<Rightarrow> Inr files)))"

text \<open>
  \<^verbatim>\<open>getFilesFromRedis\<close> (lines 326-357). \<open>None\<close> is a panic (lines 333, 338 and 352;
  the deferred \<^verbatim>\<open>redis.Close()\<close> still runs). The bare \<^verbatim>\<open>return\<close> of line 346
  returns the named results as they stand: no files and no error.
\<close>

definition getFilesFromRedis ::
  "env \<Rightarrow> string \<Rightarrow> event list \<times> (redisFile option list \<times> string option) option" where
  "getFilesFromRedis env token =
     ([PoolGet, ConnDo (''zip:'' @ token), ConnClose],
      (case conn_Do env (''zip:'' @ token) of
         Inl err \<Rightarrow> None
       | Inr ReplyNil \<Rightarrow> None
       | Inr ReplyOther \<Rightarrow> Some ([], None)
       | Inr (ReplyBytes resultByte) \<Rightarrow>
           (case json_Unmarshal_ptr env resultByte of
              Inl err \<Rightarrow> None
            | Inr files \<Rightarrow> Some (files, None))))"

section \<open>The handlers\<close>

text \<open>
  Lines 129-138: the name of the download. \<open>None\<close> is the panic of \<^verbatim>\<open>as[0]\<close> on an
  empty slice.
\<close>

definition server_as :: "Values \<Rightarrow> string option" where
  "server_as qry =
     (case Values_get qry ''as'' of
        (as, ok) \<Rightarrow>
          (let as = (if \<not> ok then as @ [''download.zip''] else as) in
           (case (if ok then
                    (case as of [] \<Rightarrow> None
                     | a # rest \<Rightarrow> Some (ReplaceAllString makeSafeFileName a '''' # rest))
                  else Some as) of
              None \<Rightarrow> None
            | Some as \<Rightarrow>
                (case as of [] \<Rightarrow> None
                 | a # rest \<Rightarrow> Some (if length a = 0 then ''download.zip'' else a)))))"

text \<open>
  \<^verbatim>\<open>func (srv *server) handler\<close> (lines 114-199). \<^verbatim>\<open>defer zw.Close()\<close> runs when
  the function leaves, after the log line of line 198 and also when the loop panics.
\<close>

definition server_handler :: "env \<Rightarrow> Values \<Rightarrow> event list \<times> outcome" where
  "server_handler env qry =
     (if length qry = 0 then ([WriteHeader 400], Returned)
      else
        (case Values_get qry ''token'' of
           (token, ok) \<Rightarrow>
             if \<not> ok then ([WriteHeader 400], Returned)
             else
               (case token of
                  [] \<Rightarrow> ([], Panicked)
                | token0 # _ \<Rightarrow>
                    if length token0 = 0 then ([WriteHeader 400], Returned)
                    else
                      (case server_as qry of
                         None \<Rightarrow> ([], Panicked)
                       | Some as0 \<Rightarrow>
                           (case getRedisFiles env token0 of
                              (ev, Inl err) \<Rightarrow> (ev @ [WriteHeader 401], Returned)
                            | (ev, Inr files) \<Rightarrow>
                                (case range_files env 0 files of
                                   (evs, out) \<Rightarrow>
                                     (ev @
                                      [HeaderAdd ''Content-Disposition''
                                         (''attachment; filename='' @ [CHR 0x22] @ as0 @ [CHR 0x22]),
                                       HeaderAdd ''Content-Type'' ''application/zip'',
                                       NewWriter] @
                                      evs @
                                      (if out = Returned then [Log RequestLine] else []) @
                                      [ZipClose (zw_Close env)],
                                      out)))))))"

text \<open>
  Lines 373-382: the name of the download in the second program. The slice is extended by
  \<^verbatim>\<open>append\<close> in the \<^verbatim>\<open>else\<close> branch; line 392 reads its first element.
\<close>

definition downloadAs :: "Values \<Rightarrow> string list" where
  "downloadAs qry =
     (case Values_get qry ''as'' of
        (downloadAs, ok) \<Rightarrow>
          if \<not> ok \<and> length downloadAs > 0 then
            (let a = ReplaceAllString makeSafeFileName (hd downloadAs) '''' in
             (if a = '''' then ''download.zip'' else a) # tl downloadAs)
          else downloadAs @ [''download.zip''])"

text \<open>
  \<^verbatim>\<open>func handler\<close> (lines 359-451). \<^verbatim>\<open>http.Error(w, "", 500)\<close> sets the status 500
  and writes the message and a newline as the body. \<^verbatim>\<open>zipWriter.Close()\<close> is an
  ordinary call (line 448), not reached when the loop panics.
\<close>

definition handler :: "env \<Rightarrow> Values \<Rightarrow> event list \<times> outcome" where
  "handler env qry =
     (case Values_get qry ''token'' of
        (tokens, ok) \<Rightarrow>
          if \<not> ok \<or> length tokens < 1 then ([HttpError '''' 500], Returned)
          else
            (let token = hd tokens in
             (case getFilesFromRedis env token of
                (ev, None) \<Rightarrow> (ev, Panicked)
              | (ev, Some (files, err)) \<Rightarrow>
                  if err \<noteq> None then (ev, Panicked)
                  else
                    (case range_files_ptr env 0 files of
                       (evs, out) \<Rightarrow>
                         (ev @
                          [HeaderAdd ''Content-Disposition''
                             (''attachment; filename='' @ [CHR 0x22] @ hd (downloadAs qry) @ [CHR 0x22]),
                           HeaderAdd ''Content-Type'' ''application/zip'',
                           NewWriter] @
                          evs @
                          (if out = Returned then [ZipClose (zw_Close env), Log RequestLine] else []),
                          out)))))"

section \<open>Reading a run\<close>

text \<open>
  The status the client sees: the code of the first \<^verbatim>\<open>WriteHeader\<close> (or
  \<^verbatim>\<open>http.Error\<close>), and 200 when the handler never sets one, since the first write of
  the body then sends \<^verbatim>\<open>http.StatusOK\<close>.
\<close>

fun status :: "event list \<Rightarrow> nat" where
  "status [] = 200"
| "status (WriteHeader code # tr) = code"
| "status (HttpError msg code # tr) = code"
| "status (e # tr) = status tr"

text \<open>The entries of the archive: the headers that were created, in order.\<close>

fun entries :: "event list \<Rightarrow> string list" where
  "entries [] = []"
| "entries (CreateHeader name m True # tr) = name # entries tr"
| "entries (e # tr) = entries tr"

text \<open>The storage paths asked of the bucket, in order.\<close>

fun fetches :: "event list \<Rightarrow> string list" where
  "fetches [] = []"
| "fetches (GetReader path # tr) = path # fetches tr"
| "fetches (e # tr) = fetches tr"

text \<open>The values added to the response header under a name, in order.\<close>

fun header :: "string \<Rightarrow> event list \<Rightarrow> string list" where
  "header k [] = []"
| "header k (HeaderAdd k' v # tr) = (if k' = k then v # header k tr else header k tr)"
| "header k (e # tr) = header k tr"

section \<open>Notions used to state the properties\<close>

text \<open>
  A descriptor is fetchable when it has a storage path and the bucket returns a reader
  for it.
\<close>

definition fetchable :: "env \<Rightarrow> redisFile \<Rightarrow> bool" where
  "fetchable env file =
     (S3Path file \<noteq> '''' \<and>
      (case bucket_GetReader env (S3Path file) of Inl err \<Rightarrow> False | Inr rdr \<Rightarrow> True))"

text \<open>The same collaborators, with the decoder returning a given manifest.\<close>

definition with_manifest :: "env \<Rightarrow> redisFile list \<Rightarrow> env" where
  "with_manifest env files =
     env\<lparr>json_Unmarshal := (\<lambda>b. Inr files), json_Unmarshal_ptr := (\<lambda>b. Inr (map Some files))\<rparr>"

text \<open>
  The path of an entry without the separator that joins the folder to the file name: the
  character just before the file name, when there is a folder.
\<close>

definition path_without_join :: "redisFile \<Rightarrow> string" where
  "path_without_join file =
     (let k = length (zipPath file) - length (safeFileName file) in
      if Folder file = '''' then zipPath file
      else take (k - 1) (zipPath file) @ drop k (zipPath file))"



fun touches_archive :: "event \<Rightarrow> bool" where
  "touches_archive (GetReader path) = True"
| "touches_archive (CreateHeader name m ok) = True"
| "touches_archive (Copy bytes ok) = True"
| "touches_archive (ZipClose ok) = True"
| "touches_archive e = False"



subsection \<open>A concrete request\<close>

text \<open>
  The manifest of the round-trip scenario, and a bucket that holds its two objects, refuses
  \<^verbatim>\<open>obj/denied\<close> and has nothing else.
\<close>

definition example_manifest :: "redisFile list" where
  "example_manifest =
     [\<lparr>S3Path = ''obj/a'', FileName = ''a.txt'', Folder = ''''\<rparr>,
      \<lparr>S3Path = ''obj/b'', FileName = ''b?.txt'', Folder = ''docs''\<rparr>]"


definition example_bucket :: "string \<Rightarrow> fetch_error + string" where
  "example_bucket path =
     (if path = ''obj/a'' then Inr ''AAA''
      else if path = ''obj/b'' then Inr ''BBB''
      else if path = ''obj/denied'' then Inl OtherError
      else Inl (S3Error 404))"

definition example_env ::
  "(string + reply) \<Rightarrow> redisFile list \<Rightarrow> (nat \<Rightarrow> bool) \<Rightarrow> (nat \<Rightarrow> bool) \<Rightarrow> bool \<Rightarrow> env" where
  "example_env rply files hdr cp cl =
     \<lparr>conn_Do = (\<lambda>key. if key = ''zip:tok1'' then rply else Inr ReplyNil),
      json_Unmarshal = (\<lambda>b. if b = ''manifest'' then Inr files else Inl ''invalid character''),
      json_Unmarshal_ptr =
        (\<lambda>b. if b = ''manifest'' then Inr (map Some files) else Inl ''invalid character''),
      bucket_GetReader = example_bucket,
      zw_CreateHeader = hdr,
      io_Copy = cp,
      zw_Close = cl\<rparr>"

section \<open>The sanitizer removes the class and nothing else\<close>

lemma ReplaceAllString_empty: "ReplaceAllString re src '''' = filter (\<lambda>c. c \<notin> set re) src"
  by (induction src) simp_all

lemma set_makeSafeFileName:
  "set makeSafeFileName =
     {CHR ''#'', CHR ''<'', CHR ''>'', CHR '':'', CHR 0x22, CHR ''/'', CHR ''|'', CHR ''?'',
      CHR ''*'', CHR 0x5C}"
  by (simp add: makeSafeFileName_def)

text \<open>
  C4. For every input, the output of the sanitizer has none of the ten characters of the
  class, is the input with characters deleted (nothing added, order kept), and is exactly
  the input without the characters of the class, so that every other character stays as it
  is.
\<close>

theorem C4_sanitizer_filters:
  "set (ReplaceAllString makeSafeFileName s '''') \<inter> set makeSafeFileName = {}
   \<and> set makeSafeFileName =
       {CHR ''#'', CHR ''<'', CHR ''>'', CHR '':'', CHR 0x22, CHR ''/'', CHR ''|'', CHR ''?'',
        CHR ''*'', CHR 0x5C}
   \<and> subseq (ReplaceAllString makeSafeFileName s '''') s
   \<and> ReplaceAllString makeSafeFileName s '''' = filter (\<lambda>c. c \<notin> set makeSafeFileName) s"
proof -
  have eq: "ReplaceAllString makeSafeFileName s '''' = filter (\<lambda>c. c \<notin> set makeSafeFileName) s"
    by (rule ReplaceAllString_empty)
  have "set (filter (\<lambda>c. c \<notin> set makeSafeFileName) s) \<inter> set makeSafeFileName = {}"
    by auto
  moreover have "subseq (filter (\<lambda>c. c \<notin> set makeSafeFileName) s) s"
    by (rule subseq_filter_left)
  ultimately show ?thesis
    using eq set_makeSafeFileName by simp
qed

theorem C4_sanitizer_filters_witness:
  "ReplaceAllString makeSafeFileName ''a/b?c.txt'' '''' = ''abc.txt''"
  using C4_sanitizer_filters [of "''a/b?c.txt''"] by (simp add: makeSafeFileName_def)

section \<open>The path of an entry\<close>

lemma safeFileName_eq:
  "safeFileName fl =
     (if filter (\<lambda>c. c \<notin> set makeSafeFileName) (FileName fl) = '''' then ''file''
      else filter (\<lambda>c. c \<notin> set makeSafeFileName) (FileName fl))"
  by (simp add: safeFileName_def ReplaceAllString_empty Let_def)

lemma safeFileName_nonempty: "safeFileName fl \<noteq> ''''"
  by (simp add: safeFileName_eq)

lemma safeFileName_clean: "set (safeFileName fl) \<inter> set makeSafeFileName = {}"
proof (cases "filter (\<lambda>c. c \<notin> set makeSafeFileName) (FileName fl) = ''''")
  case True
  then have "safeFileName fl = ''file''" by (simp add: safeFileName_eq)
  then show ?thesis by (simp add: makeSafeFileName_def)
next
  case False
  then have "safeFileName fl = filter (\<lambda>c. c \<notin> set makeSafeFileName) (FileName fl)"
    by (simp add: safeFileName_eq)
  then show ?thesis by auto
qed

lemma zipPath_eq:
  "zipPath fl =
     (if Folder fl = '''' then ''''
      else if HasSuffix_slash (Folder fl) then Folder fl else Folder fl @ ''/'') @
     safeFileName fl"
  by (simp add: zipPath_def Let_def)

lemma zipPath_base:
  assumes "Folder fl \<noteq> ''''"
  shows "zipPath fl =
     (if HasSuffix_slash (Folder fl) then butlast (Folder fl) else Folder fl) @ ''/'' @
     safeFileName fl"
proof (cases "HasSuffix_slash (Folder fl)")
  case True
  then have "butlast (Folder fl) @ ''/'' = Folder fl"
    using append_butlast_last_id [of "Folder fl"] by (simp add: HasSuffix_slash_def)
  then have "Folder fl @ safeFileName fl = butlast (Folder fl) @ ''/'' @ safeFileName fl"
    by (metis append_assoc)
  with True assms show ?thesis by (simp add: zipPath_eq)
next
  case False
  with assms show ?thesis by (simp add: zipPath_eq)
qed

lemma prefix_Folder_zipPath: "prefix (Folder fl) (zipPath fl)"
  by (simp add: zipPath_eq)

lemma length_zipPath:
  "length (zipPath fl) =
     (if Folder fl = '''' then 0
      else length (Folder fl) + (if HasSuffix_slash (Folder fl) then 0 else 1)) +
     length (safeFileName fl)"
  by (simp add: zipPath_eq)

lemma path_without_join_eq:
  "path_without_join fl =
     (if HasSuffix_slash (Folder fl) then butlast (Folder fl) else Folder fl) @
     safeFileName fl"
proof (cases "Folder fl = ''''")
  case True
  then show ?thesis
    by (simp add: path_without_join_def zipPath_eq HasSuffix_slash_def)
next
  case False
  let ?base = "if HasSuffix_slash (Folder fl) then butlast (Folder fl) else Folder fl"
  have z: "zipPath fl = (?base @ ''/'') @ safeFileName fl"
    using zipPath_base [OF False] by simp
  have k: "length (zipPath fl) - length (safeFileName fl) = Suc (length ?base)"
    by (simp add: z)
  show ?thesis
    using False unfolding path_without_join_def Let_def k by (simp add: z)
qed

lemma entries_append: "entries (xs @ ys) = entries xs @ entries ys"
  by (induction xs rule: entries.induct) simp_all

lemma loop_body_entries_subset:
  "loop_body env n fl = (ev, r) \<Longrightarrow> set (entries ev) \<subseteq> {zipPath fl}"
  by (auto simp: loop_body_def split: if_splits sum.splits fetch_error.splits)

lemma range_files_entries_subset:
  "set (entries (fst (range_files env n files))) \<subseteq> zipPath ` set files"
proof (induction files arbitrary: n)
  case Nil
  then show ?case by simp
next
  case (Cons fl files)
  obtain ev r where lb: "loop_body env n fl = (ev, r)" by (cases "loop_body env n fl")
  have sub: "set (entries ev) \<subseteq> {zipPath fl}" by (rule loop_body_entries_subset [OF lb])
  show ?case
  proof (cases r)
    case None
    with lb sub show ?thesis by auto
  next
    case (Some n')
    obtain evs out where rf: "range_files env n' files = (evs, out)"
      by (cases "range_files env n' files")
    have "set (entries evs) \<subseteq> zipPath ` set files"
      using Cons.IH [of n'] rf by simp
    with lb Some rf sub show ?thesis by (auto simp: entries_append)
  qed
qed

text \<open>
  C1, as the claim states it, fails: the stored folder is put in front of the file name as
  it is (lines 178-183 and 428-433), so a folder \<^verbatim>\<open>docs/a:b\<close> gives the entry
  \<^verbatim>\<open>docs/a:b/b.txt\<close>, which has a colon and a second separator.
\<close>

theorem C1_folder_kept_counterexample:
  "zipPath \<lparr>S3Path = ''obj/b'', FileName = ''b.txt'', Folder = ''docs/a:b''\<rparr> = ''docs/a:b/b.txt''
   \<and> path_without_join \<lparr>S3Path = ''obj/b'', FileName = ''b.txt'', Folder = ''docs/a:b''\<rparr> =
       ''docs/a:bb.txt''
   \<and> CHR '':'' \<in>
       set (path_without_join \<lparr>S3Path = ''obj/b'', FileName = ''b.txt'', Folder = ''docs/a:b''\<rparr>) \<inter>
       set makeSafeFileName
   \<and> entries (fst (server_handler
        (example_env (Inr (ReplyBytes ''manifest''))
           [\<lparr>S3Path = ''obj/b'', FileName = ''b.txt'', Folder = ''docs/a:b''\<rparr>]
           (\<lambda>n. True) (\<lambda>n. True) True)
        [(''token'', [''tok1''])])) = [''docs/a:b/b.txt'']"
  by (simp add: zipPath_def path_without_join_def safeFileName_def makeSafeFileName_def
      HasSuffix_slash_def server_handler_def example_env_def example_bucket_def Values_get_def
      server_as_def getRedisFiles_def loop_body_def)

text \<open>
  C1, amended. The path of an entry is never empty. It is the stored folder as it is, with
  a separator added when the folder is not empty and does not end with one, followed by the
  file name; the file name is the sanitized stored name, or \<^verbatim>\<open>file\<close> when that is empty,
  and has no character of the class. So the path without the joining separator is free of
  the class exactly when the stored folder is. Every entry of a run has the path of a
  descriptor of the manifest.
\<close>

theorem C1_entry_path:
  "zipPath fl \<noteq> ''''
   \<and> zipPath fl =
       (if Folder fl = '''' then ''''
        else if HasSuffix_slash (Folder fl) then Folder fl else Folder fl @ ''/'') @
       safeFileName fl
   \<and> safeFileName fl =
       (if ReplaceAllString makeSafeFileName (FileName fl) '''' = '''' then ''file''
        else ReplaceAllString makeSafeFileName (FileName fl) '''')
   \<and> set (safeFileName fl) \<inter> set makeSafeFileName = {}
   \<and> (set (path_without_join fl) \<inter> set makeSafeFileName = {}) =
       (set (if HasSuffix_slash (Folder fl) then butlast (Folder fl) else Folder fl) \<inter>
          set makeSafeFileName = {})
   \<and> set (entries (fst (range_files env n files))) \<subseteq> zipPath ` set files"
proof -
  have 1: "zipPath fl \<noteq> ''''"
    using safeFileName_nonempty [of fl] by (simp add: zipPath_eq)
  have 3: "safeFileName fl =
       (if ReplaceAllString makeSafeFileName (FileName fl) '''' = '''' then ''file''
        else ReplaceAllString makeSafeFileName (FileName fl) '''')"
    by (simp add: safeFileName_def Let_def)
  have 5: "(set (path_without_join fl) \<inter> set makeSafeFileName = {}) =
       (set (if HasSuffix_slash (Folder fl) then butlast (Folder fl) else Folder fl) \<inter>
          set makeSafeFileName = {})"
    using safeFileName_clean [of fl] unfolding path_without_join_eq
    by (simp add: Int_Un_distrib2)
  show ?thesis
    using 1 zipPath_eq [of fl] 3 safeFileName_clean [of fl] 5
      range_files_entries_subset [of env n files] by blast
qed

theorem C1_entry_path_witness:
  "zipPath \<lparr>S3Path = ''obj/b'', FileName = ''b?.txt'', Folder = ''docs''\<rparr> = ''docs/b.txt''
   \<and> zipPath \<lparr>S3Path = ''obj/c'', FileName = ''???'', Folder = ''''\<rparr> = ''file''"
  using C1_entry_path [of "\<lparr>S3Path = ''obj/b'', FileName = ''b?.txt'', Folder = ''docs''\<rparr>"]
    C1_entry_path [of "\<lparr>S3Path = ''obj/c'', FileName = ''???'', Folder = ''''\<rparr>"]
  by (simp add: HasSuffix_slash_def makeSafeFileName_def)

text \<open>
  C9. Two descriptors with the same non-empty folder get paths that start with that folder
  and have one separator between the folder (without the separator it may end with) and
  the file name, which itself has no separator: when the stored folder ends with a
  separator none is added, otherwise one is.
\<close>

theorem C9_same_folder_one_separator:
  assumes "Folder a = Folder b" and "Folder a \<noteq> ''''"
  shows "zipPath a =
           (if HasSuffix_slash (Folder a) then butlast (Folder a) else Folder a) @ ''/'' @
           safeFileName a
       \<and> zipPath b =
           (if HasSuffix_slash (Folder a) then butlast (Folder a) else Folder a) @ ''/'' @
           safeFileName b
       \<and> CHR ''/'' \<notin> set (safeFileName a) \<and> CHR ''/'' \<notin> set (safeFileName b)
       \<and> prefix (Folder a) (zipPath a) \<and> prefix (Folder a) (zipPath b)
       \<and> length (zipPath a) =
           length (Folder a) + (if HasSuffix_slash (Folder a) then 0 else 1) +
           length (safeFileName a)
       \<and> length (zipPath b) =
           length (Folder a) + (if HasSuffix_slash (Folder a) then 0 else 1) +
           length (safeFileName b)"
proof -
  have slash: "CHR ''/'' \<in> set makeSafeFileName" by (simp add: makeSafeFileName_def)
  have na: "CHR ''/'' \<notin> set (safeFileName a)" using safeFileName_clean [of a] slash by blast
  have nb: "CHR ''/'' \<notin> set (safeFileName b)" using safeFileName_clean [of b] slash by blast
  have fb: "Folder b \<noteq> ''''" using assms by simp
  have pa: "prefix (Folder a) (zipPath a)" by (rule prefix_Folder_zipPath)
  have pb: "prefix (Folder a) (zipPath b)" using prefix_Folder_zipPath [of b] assms by simp
  have la: "length (zipPath a) =
      length (Folder a) + (if HasSuffix_slash (Folder a) then 0 else 1) + length (safeFileName a)"
    using assms(2) by (simp add: length_zipPath)
  have lb: "length (zipPath b) =
      length (Folder a) + (if HasSuffix_slash (Folder a) then 0 else 1) + length (safeFileName b)"
    using fb assms(1) by (simp add: length_zipPath)
  have za: "zipPath a =
      (if HasSuffix_slash (Folder a) then butlast (Folder a) else Folder a) @ ''/'' @ safeFileName a"
    by (rule zipPath_base [OF assms(2)])
  have zb: "zipPath b =
      (if HasSuffix_slash (Folder a) then butlast (Folder a) else Folder a) @ ''/'' @ safeFileName b"
    using zipPath_base [OF fb] assms(1) by simp
  show ?thesis
    using za zb na nb pa pb la lb by blast
qed

theorem C9_same_folder_one_separator_witness:
  "zipPath \<lparr>S3Path = ''obj/a'', FileName = ''a.txt'', Folder = ''docs''\<rparr> = ''docs/a.txt''
   \<and> zipPath \<lparr>S3Path = ''obj/b'', FileName = ''b.txt'', Folder = ''docs''\<rparr> = ''docs/b.txt''
   \<and> zipPath \<lparr>S3Path = ''obj/a'', FileName = ''a.txt'', Folder = ''docs/''\<rparr> = ''docs/a.txt''
   \<and> zipPath \<lparr>S3Path = ''obj/b'', FileName = ''b.txt'', Folder = ''docs/''\<rparr> = ''docs/b.txt''"
  using C9_same_folder_one_separator
          [of "\<lparr>S3Path = ''obj/a'', FileName = ''a.txt'', Folder = ''docs''\<rparr>"
              "\<lparr>S3Path = ''obj/b'', FileName = ''b.txt'', Folder = ''docs''\<rparr>"]
        C9_same_folder_one_separator
          [of "\<lparr>S3Path = ''obj/a'', FileName = ''a.txt'', Folder = ''docs/''\<rparr>"
              "\<lparr>S3Path = ''obj/b'', FileName = ''b.txt'', Folder = ''docs/''\<rparr>"]
  by (simp add: HasSuffix_slash_def safeFileName_def makeSafeFileName_def)

section \<open>The loop\<close>

lemma fetches_append: "fetches (xs @ ys) = fetches xs @ fetches ys"
  by (induction xs rule: fetches.induct) simp_all

lemma range_files_Cons_Some:
  "loop_body env n fl = (ev, Some n') \<Longrightarrow>
   range_files env n (fl # files) =
     (ev @ fst (range_files env n' files), snd (range_files env n' files))"
  by (simp add: case_prod_beta)

lemma range_files_ptr_Some: "range_files_ptr env n (map Some files) = range_files env n files"
  by (induction files arbitrary: n) (simp_all split: prod.splits option.splits)

lemma loop_body_healthy:
  assumes "zw_CreateHeader env n"
  shows "\<exists>ev n'. loop_body env n fl = (ev, Some n')
           \<and> entries ev = (if fetchable env fl then [zipPath fl] else [])"
  using assms
  by (auto simp: loop_body_def fetchable_def split: sum.splits fetch_error.splits)

lemma loop_body_fetches:
  "loop_body env n fl = (ev, r) \<Longrightarrow> fetches ev = (if S3Path fl = '''' then [] else [S3Path fl])"
  by (auto simp: loop_body_def split: if_splits sum.splits fetch_error.splits)

lemma loop_body_fetch_fails:
  assumes "bucket_GetReader env (S3Path fl) = Inl err"
  shows "\<exists>ev. loop_body env n fl = (ev, Some n) \<and> entries ev = []"
  using assms by (auto simp: loop_body_def split: fetch_error.splits)

lemma range_files_healthy:
  assumes "\<forall>n. zw_CreateHeader env n"
  shows "snd (range_files env n files) = Returned
       \<and> entries (fst (range_files env n files)) = map zipPath (filter (fetchable env) files)"
proof (induction files arbitrary: n)
  case Nil
  show ?case by simp
next
  case (Cons fl files)
  from assms have "zw_CreateHeader env n" by simp
  from loop_body_healthy [OF this, of fl] obtain ev n'
    where lb: "loop_body env n fl = (ev, Some n')"
      and en: "entries ev = (if fetchable env fl then [zipPath fl] else [])"
    by blast
  show ?case
    using Cons.IH [of n'] en
    by (simp add: range_files_Cons_Some [OF lb] entries_append del: range_files.simps)
qed

lemma range_files_fetches:
  "snd (range_files env n files) = Returned \<Longrightarrow>
   fetches (fst (range_files env n files)) = map S3Path (filter (\<lambda>f. S3Path f \<noteq> '''') files)"
proof (induction files arbitrary: n)
  case Nil
  show ?case by simp
next
  case (Cons fl files)
  obtain ev r where lb: "loop_body env n fl = (ev, r)" by (cases "loop_body env n fl")
  show ?case
  proof (cases r)
    case None
    with lb Cons.prems show ?thesis by simp
  next
    case (Some n')
    with lb have lb': "loop_body env n fl = (ev, Some n')" by simp
    from Cons.prems have "snd (range_files env n' files) = Returned"
      by (simp add: range_files_Cons_Some [OF lb'] del: range_files.simps)
    from Cons.IH [OF this] loop_body_fetches [OF lb'] show ?thesis
      by (simp add: range_files_Cons_Some [OF lb'] fetches_append del: range_files.simps)
  qed
qed

lemma range_files_skip:
  assumes "bucket_GetReader env (S3Path fl) = Inl err"
  shows "entries (fst (range_files env n (xs @ fl # ys))) = entries (fst (range_files env n (xs @ ys)))
       \<and> snd (range_files env n (xs @ fl # ys)) = snd (range_files env n (xs @ ys))"
proof (induction xs arbitrary: n)
  case Nil
  from loop_body_fetch_fails [OF assms, of n] obtain ev
    where lb: "loop_body env n fl = (ev, Some n)" and en: "entries ev = []"
    by blast
  show ?case
    by (simp add: range_files_Cons_Some [OF lb] entries_append en del: range_files.simps)
next
  case (Cons x xs)
  obtain ev r where lb: "loop_body env n x = (ev, r)" by (cases "loop_body env n x")
  show ?case
  proof (cases r)
    case None
    with lb show ?thesis by simp
  next
    case (Some n')
    with lb have lb': "loop_body env n x = (ev, Some n')" by simp
    show ?thesis
      using Cons.IH [of n']
      by (simp add: range_files_Cons_Some [OF lb'] entries_append del: range_files.simps)
  qed
qed

section \<open>The handlers, once the manifest is resolved\<close>

lemma server_as_absent: "map_of qry ''as'' = None \<Longrightarrow> server_as qry = Some ''download.zip''"
  by (simp add: server_as_def Values_get_def)

lemma server_as_present:
  "map_of qry ''as'' = Some (a # rest) \<Longrightarrow>
   server_as qry =
     Some (if ReplaceAllString makeSafeFileName a '''' = '''' then ''download.zip''
           else ReplaceAllString makeSafeFileName a '''')"
  by (simp add: server_as_def Values_get_def)

lemma server_as_Some: "map_of qry ''as'' \<noteq> Some [] \<Longrightarrow> \<exists>name. server_as qry = Some name"
proof (cases "map_of qry ''as''")
  case None
  then show ?thesis by (simp add: server_as_absent)
next
  case (Some v)
  assume "map_of qry ''as'' \<noteq> Some []"
  with Some obtain a rest where "v = a # rest" by (cases v) auto
  with Some show ?thesis by (simp add: server_as_present)
qed

lemma server_handler_streaming:
  assumes "map_of qry ''token'' = Some (tok # rest)" and "tok \<noteq> ''''"
    and "server_as qry = Some name"
    and "conn_Do env (''zip:'' @ tok) = Inr (ReplyBytes b)"
    and "json_Unmarshal env b = Inr files"
  shows "server_handler env qry =
    ([PoolGet, ConnDo (''zip:'' @ tok), ConnClose,
      HeaderAdd ''Content-Disposition'' (''attachment; filename='' @ [CHR 0x22] @ name @ [CHR 0x22]),
      HeaderAdd ''Content-Type'' ''application/zip'', NewWriter] @
     fst (range_files env 0 files) @
     (if snd (range_files env 0 files) = Returned then [Log RequestLine] else []) @
     [ZipClose (zw_Close env)],
     snd (range_files env 0 files))"
proof -
  from assms(1) have "qry \<noteq> []" by auto
  with assms show ?thesis
    by (simp add: server_handler_def Values_get_def getRedisFiles_def case_prod_beta)
qed

lemma handler_streaming:
  assumes "map_of qry ''token'' = Some (tok # rest)"
    and "conn_Do env (''zip:'' @ tok) = Inr (ReplyBytes b)"
    and "json_Unmarshal_ptr env b = Inr files"
  shows "handler env qry =
    ([PoolGet, ConnDo (''zip:'' @ tok), ConnClose,
      HeaderAdd ''Content-Disposition''
        (''attachment; filename='' @ [CHR 0x22] @ hd (downloadAs qry) @ [CHR 0x22]),
      HeaderAdd ''Content-Type'' ''application/zip'', NewWriter] @
     fst (range_files_ptr env 0 files) @
     (if snd (range_files_ptr env 0 files) = Returned
      then [ZipClose (zw_Close env), Log RequestLine] else []),
     snd (range_files_ptr env 0 files))"
  using assms
  by (simp add: handler_def Values_get_def getFilesFromRedis_def case_prod_beta Let_def)

lemma fetchable_with_manifest: "fetchable (with_manifest env files) = fetchable env"
  by (rule ext) (simp add: fetchable_def with_manifest_def)

lemma range_files_with_manifest:
  "range_files (with_manifest env fs) n files = range_files env n files"
proof (induction files arbitrary: n)
  case Nil
  show ?case by simp
next
  case (Cons fl files)
  have "loop_body (with_manifest env fs) n fl = loop_body env n fl"
    by (simp add: loop_body_def with_manifest_def split: sum.splits)
  with Cons.IH show ?case by simp
qed

section \<open>The entries of the archive\<close>



text \<open>
  C5. A descriptor whose fetch fails (\<^verbatim>\<open>*s3.Error\<close>, 404 or not, or any other error)
  adds no entry: the run has the entries and the outcome of the run on the manifest without
  that descriptor, whatever the sink does. When the zip writer accepts every header, the
  handler returns, every descriptor with a storage path is asked of the bucket, those after
  the failed one included, and every fetchable one gets its entry. Both handlers do so.
\<close>

theorem C5_failed_fetch_is_skipped:
  assumes "S3Path fl \<noteq> ''''" and "bucket_GetReader env (S3Path fl) = Inl err"
    and "map_of qry ''token'' = Some (tok # rest)" and "tok \<noteq> ''''"
    and "map_of qry ''as'' \<noteq> Some []"
    and "conn_Do env (''zip:'' @ tok) = Inr (ReplyBytes b)"
  shows "entries (fst (server_handler (with_manifest env (xs @ fl # ys)) qry)) =
           entries (fst (server_handler (with_manifest env (xs @ ys)) qry))
       \<and> snd (server_handler (with_manifest env (xs @ fl # ys)) qry) =
           snd (server_handler (with_manifest env (xs @ ys)) qry)
       \<and> entries (fst (handler (with_manifest env (xs @ fl # ys)) qry)) =
           entries (fst (handler (with_manifest env (xs @ ys)) qry))
       \<and> snd (handler (with_manifest env (xs @ fl # ys)) qry) =
           snd (handler (with_manifest env (xs @ ys)) qry)
       \<and> ((\<forall>n. zw_CreateHeader env n) \<longrightarrow>
            snd (server_handler (with_manifest env (xs @ fl # ys)) qry) = Returned
          \<and> fetches (fst (server_handler (with_manifest env (xs @ fl # ys)) qry)) =
              map S3Path (filter (\<lambda>f. S3Path f \<noteq> '''') xs) @ S3Path fl #
              map S3Path (filter (\<lambda>f. S3Path f \<noteq> '''') ys)
          \<and> entries (fst (server_handler (with_manifest env (xs @ fl # ys)) qry)) =
              map zipPath (filter (fetchable env) xs) @ map zipPath (filter (fetchable env) ys)
          \<and> snd (handler (with_manifest env (xs @ fl # ys)) qry) = Returned
          \<and> fetches (fst (handler (with_manifest env (xs @ fl # ys)) qry)) =
              map S3Path (filter (\<lambda>f. S3Path f \<noteq> '''') xs) @ S3Path fl #
              map S3Path (filter (\<lambda>f. S3Path f \<noteq> '''') ys)
          \<and> entries (fst (handler (with_manifest env (xs @ fl # ys)) qry)) =
              map zipPath (filter (fetchable env) xs) @ map zipPath (filter (fetchable env) ys))"
proof -
  from server_as_Some [OF assms(5)] obtain name where name: "server_as qry = Some name" ..
  have h1: "server_handler (with_manifest env fs) qry =
    ([PoolGet, ConnDo (''zip:'' @ tok), ConnClose,
      HeaderAdd ''Content-Disposition'' (''attachment; filename='' @ [CHR 0x22] @ name @ [CHR 0x22]),
      HeaderAdd ''Content-Type'' ''application/zip'', NewWriter] @
     fst (range_files env 0 fs) @
     (if snd (range_files env 0 fs) = Returned then [Log RequestLine] else []) @
     [ZipClose (zw_Close env)],
     snd (range_files env 0 fs))" for fs
    using server_handler_streaming [of qry tok rest name "with_manifest env fs" b fs]
      assms(3,4,6) name
    by (simp add: range_files_with_manifest) (simp add: with_manifest_def)
  have h2: "handler (with_manifest env fs) qry =
    ([PoolGet, ConnDo (''zip:'' @ tok), ConnClose,
      HeaderAdd ''Content-Disposition''
        (''attachment; filename='' @ [CHR 0x22] @ hd (downloadAs qry) @ [CHR 0x22]),
      HeaderAdd ''Content-Type'' ''application/zip'', NewWriter] @
     fst (range_files env 0 fs) @
     (if snd (range_files env 0 fs) = Returned
      then [ZipClose (zw_Close env), Log RequestLine] else []),
     snd (range_files env 0 fs))" for fs
    using handler_streaming [of qry tok rest "with_manifest env fs" b "map Some fs"]
      assms(3,6)
    by (simp add: range_files_ptr_Some range_files_with_manifest) (simp add: with_manifest_def)
  note skip = range_files_skip [OF assms(2), of 0 xs ys]
  have nf: "\<not> fetchable env fl" using assms(2) by (simp add: fetchable_def)
  have a1: "entries (fst (server_handler (with_manifest env (xs @ fl # ys)) qry)) =
           entries (fst (server_handler (with_manifest env (xs @ ys)) qry))"
    using skip by (simp add: h1 entries_append)
  have a2: "snd (server_handler (with_manifest env (xs @ fl # ys)) qry) =
           snd (server_handler (with_manifest env (xs @ ys)) qry)"
    using skip by (simp add: h1)
  have a3: "entries (fst (handler (with_manifest env (xs @ fl # ys)) qry)) =
           entries (fst (handler (with_manifest env (xs @ ys)) qry))"
    using skip by (simp add: h2 entries_append)
  have a4: "snd (handler (with_manifest env (xs @ fl # ys)) qry) =
           snd (handler (with_manifest env (xs @ ys)) qry)"
    using skip by (simp add: h2)
  have b: "snd (server_handler (with_manifest env (xs @ fl # ys)) qry) = Returned
          \<and> fetches (fst (server_handler (with_manifest env (xs @ fl # ys)) qry)) =
              map S3Path (filter (\<lambda>f. S3Path f \<noteq> '''') xs) @ S3Path fl #
              map S3Path (filter (\<lambda>f. S3Path f \<noteq> '''') ys)
          \<and> entries (fst (server_handler (with_manifest env (xs @ fl # ys)) qry)) =
              map zipPath (filter (fetchable env) xs) @ map zipPath (filter (fetchable env) ys)
          \<and> snd (handler (with_manifest env (xs @ fl # ys)) qry) = Returned
          \<and> fetches (fst (handler (with_manifest env (xs @ fl # ys)) qry)) =
              map S3Path (filter (\<lambda>f. S3Path f \<noteq> '''') xs) @ S3Path fl #
              map S3Path (filter (\<lambda>f. S3Path f \<noteq> '''') ys)
          \<and> entries (fst (handler (with_manifest env (xs @ fl # ys)) qry)) =
              map zipPath (filter (fetchable env) xs) @ map zipPath (filter (fetchable env) ys)"
    if healthy: "\<forall>n. zw_CreateHeader env n"
  proof -
    note loop = range_files_healthy [OF healthy, of 0 "xs @ fl # ys"]
    from loop have ret: "snd (range_files env 0 (xs @ fl # ys)) = Returned" by simp
    note ft = range_files_fetches [OF ret]
    show ?thesis
      using loop ft nf assms(1) by (simp add: h1 h2 entries_append fetches_append)
  qed
  show ?thesis
    using a1 a2 a3 a4 b by blast
qed

theorem C5_failed_fetch_is_skipped_witness:
  "entries (fst (server_handler
      (with_manifest (example_env (Inr (ReplyBytes ''manifest'')) [] (\<lambda>n. True) (\<lambda>n. True) True)
         ([\<lparr>S3Path = ''obj/a'', FileName = ''a.txt'', Folder = ''''\<rparr>] @
          \<lparr>S3Path = ''obj/gone'', FileName = ''gone.txt'', Folder = ''docs''\<rparr> #
          [\<lparr>S3Path = ''obj/b'', FileName = ''b?.txt'', Folder = ''docs''\<rparr>]))
      [(''token'', [''tok1''])])) = [''a.txt'', ''docs/b.txt'']
   \<and> fetches (fst (server_handler
      (with_manifest (example_env (Inr (ReplyBytes ''manifest'')) [] (\<lambda>n. True) (\<lambda>n. True) True)
         ([\<lparr>S3Path = ''obj/a'', FileName = ''a.txt'', Folder = ''''\<rparr>] @
          \<lparr>S3Path = ''obj/gone'', FileName = ''gone.txt'', Folder = ''docs''\<rparr> #
          [\<lparr>S3Path = ''obj/b'', FileName = ''b?.txt'', Folder = ''docs''\<rparr>]))
      [(''token'', [''tok1''])])) = [''obj/a'', ''obj/gone'', ''obj/b'']"
  using C5_failed_fetch_is_skipped
    [where fl = "\<lparr>S3Path = ''obj/gone'', FileName = ''gone.txt'', Folder = ''docs''\<rparr>"
       and env = "example_env (Inr (ReplyBytes ''manifest'')) [] (\<lambda>n. True) (\<lambda>n. True) True"
       and err = "S3Error 404" and qry = "[(''token'', [''tok1''])]" and tok = "''tok1''"
       and rest = "[]" and b = "''manifest''"
       and xs = "[\<lparr>S3Path = ''obj/a'', FileName = ''a.txt'', Folder = ''''\<rparr>]"
       and ys = "[\<lparr>S3Path = ''obj/b'', FileName = ''b?.txt'', Folder = ''docs''\<rparr>]"]
  by (simp add: example_env_def example_bucket_def fetchable_def zipPath_def
      safeFileName_def makeSafeFileName_def HasSuffix_slash_def with_manifest_def
      server_handler_def handler_def Values_get_def server_as_def getRedisFiles_def
      getFilesFromRedis_def loop_body_def)

section \<open>A manifest that decodes to nil\<close>

text \<open>
  C10. The store returns bytes for the key of the token and the decoder turns them into
  the nil slice without an error, as \<^verbatim>\<open>json.Unmarshal\<close> does for \<^verbatim>\<open>null\<close>.
  Then \<^verbatim>\<open>getRedisFiles\<close> returns the empty manifest and no error; the handler sets no
  status, so the response is a 200; the archive has no entry, and the only call on the
  archive is the \<^verbatim>\<open>Close\<close> that writes its central directory. Both handlers do so.
\<close>

theorem C10_nil_manifest_gives_empty_archive:
  assumes "map_of qry ''token'' = Some (tok # rest)" and "tok \<noteq> ''''"
    and "map_of qry ''as'' \<noteq> Some []"
    and "conn_Do env (''zip:'' @ tok) = Inr (ReplyBytes b)"
    and "json_Unmarshal env b = Inr []"
    and "json_Unmarshal_ptr env b = Inr []"
    and "zw_Close env"
  shows "getRedisFiles env tok = ([PoolGet, ConnDo (''zip:'' @ tok), ConnClose], Inr [])
       \<and> snd (server_handler env qry) = Returned
       \<and> status (fst (server_handler env qry)) = 200
       \<and> entries (fst (server_handler env qry)) = []
       \<and> filter touches_archive (fst (server_handler env qry)) = [ZipClose True]
       \<and> snd (handler env qry) = Returned
       \<and> status (fst (handler env qry)) = 200
       \<and> entries (fst (handler env qry)) = []
       \<and> filter touches_archive (fst (handler env qry)) = [ZipClose True]"
proof -
  from server_as_Some [OF assms(3)] obtain name where name: "server_as qry = Some name" ..
  note h1 = server_handler_streaming [OF assms(1) assms(2) name assms(4) assms(5)]
  note h2 = handler_streaming [OF assms(1) assms(4) assms(6)]
  have g: "getRedisFiles env tok = ([PoolGet, ConnDo (''zip:'' @ tok), ConnClose], Inr [])"
    using assms(4,5) by (simp add: getRedisFiles_def)
  show ?thesis
    using g assms(7) by (simp add: h1 h2)
qed

theorem C10_nil_manifest_gives_empty_archive_witness:
  "server_handler (example_env (Inr (ReplyBytes ''manifest'')) [] (\<lambda>n. True) (\<lambda>n. True) True)
     [(''token'', [''tok1''])] =
   ([PoolGet, ConnDo ''zip:tok1'', ConnClose,
     HeaderAdd ''Content-Disposition'' (''attachment; filename='' @ [CHR 0x22] @ ''download.zip'' @ [CHR 0x22]),
     HeaderAdd ''Content-Type'' ''application/zip'', NewWriter, Log RequestLine, ZipClose True],
    Returned)
   \<and> status (fst (server_handler
        (example_env (Inr (ReplyBytes ''manifest'')) [] (\<lambda>n. True) (\<lambda>n. True) True)
        [(''token'', [''tok1''])])) = 200"
  using C10_nil_manifest_gives_empty_archive
    [where qry = "[(''token'', [''tok1''])]" and tok = "''tok1''" and rest = "[]"
       and env = "example_env (Inr (ReplyBytes ''manifest'')) [] (\<lambda>n. True) (\<lambda>n. True) True"
       and b = "''manifest''"]
  by (simp add: example_env_def server_handler_def Values_get_def server_as_def getRedisFiles_def)

section \<open>The name of the download\<close>

lemma header_append: "header k (xs @ ys) = header k xs @ header k ys"
  by (induction k xs rule: header.induct) simp_all

lemma loop_body_header: "loop_body env n fl = (ev, r) \<Longrightarrow> header k ev = []"
  by (auto simp: loop_body_def split: if_splits sum.splits fetch_error.splits)

lemma range_files_header: "header k (fst (range_files env n files)) = []"
proof (induction files arbitrary: n)
  case Nil
  show ?case by simp
next
  case (Cons fl files)
  obtain ev r where lb: "loop_body env n fl = (ev, r)" by (cases "loop_body env n fl")
  show ?case
  proof (cases r)
    case None
    with lb loop_body_header [OF lb] show ?thesis by simp
  next
    case (Some n')
    with lb have lb': "loop_body env n fl = (ev, Some n')" by simp
    show ?thesis
      using Cons.IH [of n'] loop_body_header [OF lb']
      by (simp add: range_files_Cons_Some [OF lb'] header_append del: range_files.simps)
  qed
qed

text \<open>
  The first program does what C2 says: with a resolved manifest, the header names the
  sanitized \<^verbatim>\<open>as\<close> value, and \<^verbatim>\<open>download.zip\<close> when the parameter is absent or
  its sanitized value is empty.
\<close>

lemma server_handler_Content_Disposition:
  assumes "map_of qry ''token'' = Some (tok # rest)" and "tok \<noteq> ''''"
    and "map_of qry ''as'' \<noteq> Some []"
    and "conn_Do env (''zip:'' @ tok) = Inr (ReplyBytes b)"
    and "json_Unmarshal env b = Inr files"
  shows "header ''Content-Disposition'' (fst (server_handler env qry)) =
    [''attachment; filename='' @ [CHR 0x22] @
     (case map_of qry ''as'' of
        None \<Rightarrow> ''download.zip''
      | Some v \<Rightarrow>
          if ReplaceAllString makeSafeFileName (hd v) '''' = '''' then ''download.zip''
          else ReplaceAllString makeSafeFileName (hd v) '''') @
     [CHR 0x22]]"
proof -
  let ?name = "case map_of qry ''as'' of
        None \<Rightarrow> ''download.zip''
      | Some v \<Rightarrow>
          if ReplaceAllString makeSafeFileName (hd v) '''' = '''' then ''download.zip''
          else ReplaceAllString makeSafeFileName (hd v) ''''"
  have name: "server_as qry = Some ?name"
  proof (cases "map_of qry ''as''")
    case None
    then show ?thesis by (simp add: server_as_absent)
  next
    case (Some v)
    with assms(3) obtain a rest' where "v = a # rest'" by (cases v) auto
    with Some show ?thesis by (simp add: server_as_present)
  qed
  note h1 = server_handler_streaming [OF assms(1) assms(2) name assms(4) assms(5)]
  show ?thesis
    by (simp add: h1 header_append range_files_header)
qed

text \<open>
  C2, in the second program. The test of line 375 is \<^verbatim>\<open>!ok && len(downloadAs) > 0\<close>,
  which never holds: a key that is not there gives the nil slice. So the \<^verbatim>\<open>else\<close>
  branch always runs and appends the default behind the values of the request, and line
  392 reads the first element: the raw \<^verbatim>\<open>as\<close> value when there is one. For
  \<^verbatim>\<open>as=a/b.zip\<close> the header names \<^verbatim>\<open>a/b.zip\<close>, where the first program names
  \<^verbatim>\<open>ab.zip\<close>.
\<close>

theorem C2_second_handler_keeps_raw_name:
  "downloadAs [(''token'', [''tok1'']), (''as'', [''a/b.zip''])] = [''a/b.zip'', ''download.zip'']
   \<and> header ''Content-Disposition'' (fst (handler
        (example_env (Inr (ReplyBytes ''manifest'')) example_manifest (\<lambda>n. True) (\<lambda>n. True) True)
        [(''token'', [''tok1'']), (''as'', [''a/b.zip''])])) =
      [''attachment; filename='' @ [CHR 0x22] @ ''a/b.zip'' @ [CHR 0x22]]
   \<and> header ''Content-Disposition'' (fst (server_handler
        (example_env (Inr (ReplyBytes ''manifest'')) example_manifest (\<lambda>n. True) (\<lambda>n. True) True)
        [(''token'', [''tok1'']), (''as'', [''a/b.zip''])])) =
      [''attachment; filename='' @ [CHR 0x22] @ ''ab.zip'' @ [CHR 0x22]]"
  by (simp add: downloadAs_def handler_def server_handler_def server_as_def Values_get_def
      getFilesFromRedis_def getRedisFiles_def example_env_def example_manifest_def
      example_bucket_def loop_body_def makeSafeFileName_def)

theorem C2_second_handler_keeps_raw_name_witness:
  "hd (downloadAs [(''token'', [''tok1'']), (''as'', [''a/b.zip''])]) = ''a/b.zip''"
  using C2_second_handler_keeps_raw_name by simp

section \<open>Requests that are refused\<close>

text \<open>
  The first program does what C7 says: for an empty query, a query without \<^verbatim>\<open>token\<close>
  and an empty first \<^verbatim>\<open>token\<close> value, the only call is \<^verbatim>\<open>WriteHeader(400)\<close>.
\<close>

lemma server_handler_bad_request:
  assumes "qry = [] \<or> map_of qry ''token'' = None \<or> map_of qry ''token'' = Some ('''' # rest)"
  shows "server_handler env qry = ([WriteHeader 400], Returned)"
  using assms by (auto simp: server_handler_def Values_get_def)

text \<open>
  C7, in the second program. A request without \<^verbatim>\<open>token\<close> is answered by
  \<^verbatim>\<open>http.Error(w, "", 500)\<close>: a server error, with a newline as body. The test of
  line 365 looks at the number of values, not at the value, so \<^verbatim>\<open>token=\<close> passes it
  and the key \<^verbatim>\<open>zip:\<close> is asked of the store. The first program answers 400 there.
\<close>

theorem C7_second_handler_bad_request:
  "handler env [] = ([HttpError '''' 500], Returned)
   \<and> status (fst (handler env [])) = 500
   \<and> handler (example_env (Inr (ReplyBytes ''manifest'')) example_manifest (\<lambda>n. True) (\<lambda>n. True) True)
       [(''token'', [''''])] = ([PoolGet, ConnDo ''zip:'', ConnClose], Panicked)
   \<and> server_handler env [(''token'', [''''])] = ([WriteHeader 400], Returned)"
  by (simp add: handler_def server_handler_def Values_get_def getFilesFromRedis_def
      example_env_def)

theorem C7_second_handler_bad_request_witness:
  "status (fst (handler
     (example_env (Inr (ReplyBytes ''manifest'')) example_manifest (\<lambda>n. True) (\<lambda>n. True) True)
     [])) = 500
   \<and> ConnDo ''zip:'' \<in> set (fst (handler
     (example_env (Inr (ReplyBytes ''manifest'')) example_manifest (\<lambda>n. True) (\<lambda>n. True) True)
     [(''token'', [''''])]))"
  using C7_second_handler_bad_request
    [of "example_env (Inr (ReplyBytes ''manifest'')) example_manifest (\<lambda>n. True) (\<lambda>n. True) True"]
  by simp

section \<open>Tokens that do not resolve\<close>

text \<open>
  The first program does what C6 says: \<^verbatim>\<open>getRedisFiles\<close> fails when the call on the
  store fails, when the reply is nil or not a byte slice, and when the bytes do not decode;
  in each case the handler sets the status 401 and makes no other call on the response.
\<close>

lemma getRedisFiles_fails:
  "(\<exists>err. snd (getRedisFiles env tok) = Inl err) =
   (case conn_Do env (''zip:'' @ tok) of
      Inl err \<Rightarrow> True
    | Inr ReplyNil \<Rightarrow> True
    | Inr ReplyOther \<Rightarrow> True
    | Inr (ReplyBytes b) \<Rightarrow> (case json_Unmarshal env b of Inl err \<Rightarrow> True | Inr files \<Rightarrow> False))"
  by (simp add: getRedisFiles_def split: sum.splits reply.splits)

lemma server_handler_unauthorized:
  assumes "map_of qry ''token'' = Some (tok # rest)" and "tok \<noteq> ''''"
    and "map_of qry ''as'' \<noteq> Some []"
    and "snd (getRedisFiles env tok) = Inl err"
  shows "server_handler env qry =
    ([PoolGet, ConnDo (''zip:'' @ tok), ConnClose, WriteHeader 401], Returned)"
proof -
  from assms(1) have q: "qry \<noteq> []" by auto
  from server_as_Some [OF assms(3)] obtain name where name: "server_as qry = Some name" ..
  have g: "getRedisFiles env tok = ([PoolGet, ConnDo (''zip:'' @ tok), ConnClose], Inl err)"
    using assms(4) by (simp add: getRedisFiles_def)
  show ?thesis
    using q assms(1,2) name g by (simp add: server_handler_def Values_get_def)
qed

text \<open>
  C6, in the second program. \<^verbatim>\<open>getFilesFromRedis\<close> panics when the call on the store
  fails (line 333), when the reply is nil (line 338) and when the bytes do not decode (line
  352): the handler sets no status at all. A reply that is not a byte slice returns no
  files and no error (line 346), and the request goes on as a 200 with an empty archive. The
  first program answers 401 to the same request.
\<close>

theorem C6_second_handler_panics:
  "handler (example_env (Inr ReplyNil) example_manifest (\<lambda>n. True) (\<lambda>n. True) True)
     [(''token'', [''tok1''])] = ([PoolGet, ConnDo ''zip:tok1'', ConnClose], Panicked)
   \<and> handler (example_env (Inl ''connection refused'') example_manifest (\<lambda>n. True) (\<lambda>n. True) True)
     [(''token'', [''tok1''])] = ([PoolGet, ConnDo ''zip:tok1'', ConnClose], Panicked)
   \<and> handler (example_env (Inr (ReplyBytes ''{'')) example_manifest (\<lambda>n. True) (\<lambda>n. True) True)
     [(''token'', [''tok1''])] = ([PoolGet, ConnDo ''zip:tok1'', ConnClose], Panicked)
   \<and> status (fst (handler (example_env (Inr ReplyOther) example_manifest (\<lambda>n. True) (\<lambda>n. True) True)
     [(''token'', [''tok1''])])) = 200
   \<and> server_handler (example_env (Inr ReplyNil) example_manifest (\<lambda>n. True) (\<lambda>n. True) True)
     [(''token'', [''tok1''])] = ([PoolGet, ConnDo ''zip:tok1'', ConnClose, WriteHeader 401], Returned)"
  by (simp add: handler_def server_handler_def server_as_def Values_get_def
      getFilesFromRedis_def getRedisFiles_def example_env_def downloadAs_def)

theorem C6_second_handler_panics_witness:
  "snd (handler (example_env (Inr ReplyNil) example_manifest (\<lambda>n. True) (\<lambda>n. True) True)
     [(''token'', [''tok1''])]) = Panicked
   \<and> WriteHeader 401 \<notin> set (fst (handler
     (example_env (Inr ReplyNil) example_manifest (\<lambda>n. True) (\<lambda>n. True) True)
     [(''token'', [''tok1''])]))"
  using C6_second_handler_panics by simp

section \<open>Writes that fail\<close>






end
